theory Spec2Isabelle
  imports Main "HOL-Library.Sublist"
begin

section \<open>The node model\<close>

text \<open>
  The tree type is \<^verbatim>\<open>yaml.Node\<close> of gopkg.in/yaml.v3. The functions of
  \<^verbatim>\<open>loaders.go\<close> read and write four of its fields: \<^verbatim>\<open>Kind\<close>, \<^verbatim>\<open>Tag\<close>,
  \<^verbatim>\<open>Value\<close> and \<^verbatim>\<open>Content\<close>. \<^verbatim>\<open>Content\<close> is a slice of pointers
  (\<^verbatim>\<open>[]*yaml.Node\<close>), so an element may be nil: a pointer is a \<open>node option\<close>, with
  \<open>None\<close> for nil. A node is held by value here; overwriting the pointee
  (\<^verbatim>\<open>*n = ...\<close>) is modelled by returning the new pointee in place of the old one.
\<close>

datatype kind = DocumentNode | SequenceNode | MappingNode | ScalarNode | AliasNode

datatype node = Node (Kind: kind) (Tag: string) (Value: string) (Content: "node option list")

text \<open>
  A Go function returning \<^verbatim>\<open>error\<close> ends in one of three ways: it returns nil, it
  returns an error, or it panics (here: by dereferencing a nil pointer).
\<close>

datatype 'e result = Ok | Err 'e | Panic

section \<open>The tag-resolution engine\<close>

text \<open>
  \<^verbatim>\<open>type TagProcessor = func(n *yaml.Node) error\<close>. The processor receives a non-nil
  pointer; it may overwrite the pointee and may have effects of its own. Its model takes
  the pointee and a state \<open>'s\<close> of the processor, and returns how it ended, the pointee
  as it left it, and its new state. The processor is taken to write to no other node of
  the tree being traversed.
\<close>

type_synonym ('s, 'e) TagProcessor = "node \<Rightarrow> 's \<Rightarrow> 'e result \<times> node \<times> 's"

text \<open>
  \<^verbatim>\<open>HandleCustomTag\<close> (loaders.go, lines 14 to 39). \<open>range_Content\<close> is the loop over
  the children of a sequence (line 22), \<open>values_Content\<close> the loop over the odd indices
  of the children of a mapping (line 30): an iteration consumes a key and the value after
  it, and a trailing key without a value is never visited, as \<^verbatim>\<open>i < len(n.Content)\<close>
  fails for it. Reading \<^verbatim>\<open>n.Tag\<close> through a nil pointer panics. Every function returns
  the tree as the traversal left it, also when it stops early.
\<close>

fun HandleCustomTag ::
    "node option \<Rightarrow> string \<Rightarrow> ('s, 'e) TagProcessor \<Rightarrow> 's \<Rightarrow> 'e result \<times> node option \<times> 's"
  and range_Content ::
    "node option list \<Rightarrow> string \<Rightarrow> ('s, 'e) TagProcessor \<Rightarrow> 's
      \<Rightarrow> 'e result \<times> node option list \<times> 's"
  and values_Content ::
    "node option list \<Rightarrow> string \<Rightarrow> ('s, 'e) TagProcessor \<Rightarrow> 's
      \<Rightarrow> 'e result \<times> node option list \<times> 's"
where
  "HandleCustomTag None tag fn s = (Panic, None, s)"
| "HandleCustomTag (Some (Node k t v c)) tag fn s =
     (if t = tag then
        (case fn (Node k t v c) s of (r, n', s') \<Rightarrow> (r, Some n', s'))
      else if k = SequenceNode then
        (case range_Content c tag fn s of (r, c', s') \<Rightarrow> (r, Some (Node k t v c'), s'))
      else if k = MappingNode then
        (case values_Content c tag fn s of (r, c', s') \<Rightarrow> (r, Some (Node k t v c'), s'))
      else (Ok, Some (Node k t v c), s))"
| "range_Content [] tag fn s = (Ok, [], s)"
| "range_Content (x # xs) tag fn s =
     (case HandleCustomTag x tag fn s of
        (Ok, x', s') \<Rightarrow>
          (case range_Content xs tag fn s' of (r, xs', s'') \<Rightarrow> (r, x' # xs', s''))
      | (r, x', s') \<Rightarrow> (r, x' # xs, s'))"
| "values_Content (key # x # xs) tag fn s =
     (case HandleCustomTag x tag fn s of
        (Ok, x', s') \<Rightarrow>
          (case values_Content xs tag fn s' of (r, xs', s'') \<Rightarrow> (r, key # x' # xs', s''))
      | (r, x', s') \<Rightarrow> (r, key # x' # xs, s'))"
| "values_Content xs tag fn s = (Ok, xs, s)"

section \<open>The platform: file system and YAML decoder\<close>

text \<open>
  The file system, the path functions of the Go standard library and the YAML decoder are
  not part of the repository. They are parameters of the model:
  \<^item> \<open>GOOS\<close> decides \<^verbatim>\<open>os.IsPathSeparator\<close>;
  \<^item> \<open>ReadFile\<close> is \<^verbatim>\<open>os.ReadFile\<close>;
  \<^item> \<open>yaml_decode\<close> is what \<^verbatim>\<open>yaml.Unmarshal\<close> does with the bytes when the target
    implements \<^verbatim>\<open>yaml.Unmarshaler\<close>: it fails with an error, or it calls the target's
    \<^verbatim>\<open>UnmarshalYAML\<close> with a node (\<open>Some\<close>), or it returns nil without calling it
    (\<open>None\<close>). yaml.v3 does the last for an empty buffer, where its parser yields no
    node at all;
  \<^item> \<open>Lstat\<close> gives, for the root of a walk, the directory tree below it as
    \<^verbatim>\<open>os.Lstat\<close> and successive \<^verbatim>\<open>os.ReadDir\<close> calls would report it: the entries of a
    directory in the order \<^verbatim>\<open>os.ReadDir\<close> returns them (sorted by file name), with the
    error of \<^verbatim>\<open>os.ReadDir\<close> if it had one;
  \<^item> \<open>Join\<close> and \<open>Base\<close> are \<^verbatim>\<open>filepath.Join\<close> (of a path and one name) and
    \<^verbatim>\<open>filepath.Base\<close>.
\<close>

datatype goos = Unix | Windows

datatype 'e dirtree = File | Directory "(string \<times> 'e dirtree) list" "'e option"

record 'e platform =
  GOOS :: goos
  ReadFile :: "string \<Rightarrow> 'e + string"
  yaml_decode :: "string \<Rightarrow> 'e + node option"
  Lstat :: "string \<Rightarrow> 'e + 'e dirtree"
  Join :: "string \<Rightarrow> string \<Rightarrow> string"
  Base :: "string \<Rightarrow> string"

fun IsPathSeparator :: "goos \<Rightarrow> char \<Rightarrow> bool" where
  "IsPathSeparator Unix c = (c = CHR ''/'')"
| "IsPathSeparator Windows c = (c = CHR 0x5C \<or> c = CHR ''/'')"

fun IsDir :: "'e dirtree \<Rightarrow> bool" where
  "IsDir File = False"
| "IsDir (Directory es err) = True"

text \<open>
  \<^verbatim>\<open>filepath.WalkDir\<close>, after the Go standard library: the callback is called for the
  root, then \<^verbatim>\<open>walkDir\<close> calls it for every entry of a directory and descends into
  every entry that is a directory, in the order of \<^verbatim>\<open>os.ReadDir\<close>; a second call
  reports an error of \<^verbatim>\<open>os.ReadDir\<close>; the first error of the callback ends the walk.
  The callback receives the path, \<^verbatim>\<open>entry.IsDir()\<close> of the entry (\<open>None\<close> for a nil
  entry) and the error. The sentinels \<^verbatim>\<open>SkipDir\<close> and \<^verbatim>\<open>SkipAll\<close> are left
  out: the callback of this repository returns nil or an error of \<^verbatim>\<open>LoadFileFragment\<close>.
\<close>

type_synonym ('a, 'e) WalkDirFunc = "string \<Rightarrow> bool option \<Rightarrow> 'e option \<Rightarrow> 'a \<Rightarrow> 'e result \<times> 'a"

fun walkDir ::
    "(string \<Rightarrow> string \<Rightarrow> string) \<Rightarrow> string \<Rightarrow> 'e dirtree \<Rightarrow> ('a, 'e) WalkDirFunc \<Rightarrow> 'a
      \<Rightarrow> 'e result \<times> 'a"
  and walkDir_entries ::
    "(string \<Rightarrow> string \<Rightarrow> string) \<Rightarrow> string \<Rightarrow> (string \<times> 'e dirtree) list
      \<Rightarrow> ('a, 'e) WalkDirFunc \<Rightarrow> 'a \<Rightarrow> 'e result \<times> 'a"
where
  "walkDir join path File fn a = fn path (Some False) None a"
| "walkDir join path (Directory es rerr) fn a =
     (case fn path (Some True) None a of
        (Ok, a1) \<Rightarrow>
          (case rerr of
             None \<Rightarrow> walkDir_entries join path es fn a1
           | Some e \<Rightarrow>
               (case fn path (Some True) (Some e) a1 of
                  (Ok, a2) \<Rightarrow> walkDir_entries join path es fn a2
                | (r, a2) \<Rightarrow> (r, a2)))
      | (r, a1) \<Rightarrow> (r, a1))"
| "walkDir_entries join path [] fn a = (Ok, a)"
| "walkDir_entries join path ((name, d) # es) fn a =
     (case walkDir join (join path name) d fn a of
        (Ok, a') \<Rightarrow> walkDir_entries join path es fn a'
      | (r, a') \<Rightarrow> (r, a'))"

definition WalkDir ::
    "'e platform \<Rightarrow> string \<Rightarrow> ('a, 'e) WalkDirFunc \<Rightarrow> 'a \<Rightarrow> 'e result \<times> 'a" where
  "WalkDir P root fn a =
     (case Lstat P root of
        Inl e \<Rightarrow> fn root None (Some e) a
      | Inr d \<Rightarrow> walkDir (Join P) root d fn a)"

section \<open>The inclusion resolvers\<close>

text \<open>
  \<^verbatim>\<open>Fragment\<close> and its \<^verbatim>\<open>UnmarshalYAML\<close> (lines 42 to 49). \<open>yaml_Unmarshal\<close> is
  \<^verbatim>\<open>yaml.Unmarshal(data, &f)\<close> for a \<^verbatim>\<open>Fragment\<close> target, in terms of the
  platform's decoder.
\<close>

record Fragment =
  Fragment_Content :: "node option"

definition UnmarshalYAML :: "Fragment \<Rightarrow> node \<Rightarrow> Fragment \<times> 'e result" where
  "UnmarshalYAML f n = (f\<lparr>Fragment_Content := Some n\<rparr>, Ok)"

definition yaml_Unmarshal :: "'e platform \<Rightarrow> string \<Rightarrow> Fragment \<Rightarrow> Fragment \<times> 'e result" where
  "yaml_Unmarshal P data f =
     (case yaml_decode P data of
        Inl e \<Rightarrow> (f, Err e)
      | Inr None \<Rightarrow> (f, Ok)
      | Inr (Some n) \<Rightarrow> UnmarshalYAML f n)"

text \<open>
  \<^verbatim>\<open>LoadFileFragment\<close> (lines 52 to 63) returns a pointer and an error.
\<close>

definition LoadFileFragment :: "'e platform \<Rightarrow> string \<Rightarrow> node option \<times> 'e result" where
  "LoadFileFragment P path =
     (case ReadFile P path of
        Inl e \<Rightarrow> (None, Err e)
      | Inr data \<Rightarrow>
          (case yaml_Unmarshal P data \<lparr>Fragment_Content = None\<rparr> of
             (f, Ok) \<Rightarrow> (Fragment_Content f, Ok)
           | (f, r) \<Rightarrow> (None, r)))"

text \<open>
  \<^verbatim>\<open>LoadIncludeTag\<close> (lines 67 to 76). \<open>include_processor\<close> is its closure;
  \<^verbatim>\<open>*n = *fragment\<close> panics when \<^verbatim>\<open>fragment\<close> is nil.
\<close>

definition include_processor :: "'e platform \<Rightarrow> (unit, 'e) TagProcessor" where
  "include_processor P n s =
     (case LoadFileFragment P (Value n) of
        (fragment, Ok) \<Rightarrow>
          (case fragment of None \<Rightarrow> (Panic, n, s) | Some f \<Rightarrow> (Ok, f, s))
      | (fragment, r) \<Rightarrow> (r, n, s))"

definition LoadIncludeTag :: "'e platform \<Rightarrow> node option \<Rightarrow> 'e result \<times> node option" where
  "LoadIncludeTag P n =
     (case HandleCustomTag n ''!include'' (include_processor P) () of (r, n', u) \<Rightarrow> (r, n'))"

text \<open>
  \<^verbatim>\<open>fileNameWithoutExt\<close> (lines 113 to 120). The loop variable \<^verbatim>\<open>i\<close> runs from
  \<^verbatim>\<open>len(path) - 1\<close> down; the argument of \<open>fileNameWithoutExt_loop\<close> is \<^verbatim>\<open>i + 1\<close>, so
  that \<open>0\<close> stands for \<^verbatim>\<open>i = -1\<close>.
\<close>

fun fileNameWithoutExt_loop :: "goos \<Rightarrow> string \<Rightarrow> nat \<Rightarrow> string" where
  "fileNameWithoutExt_loop os path 0 = ''''"
| "fileNameWithoutExt_loop os path (Suc i) =
     (if IsPathSeparator os (path ! i) then ''''
      else if path ! i = CHR ''.'' then take i path
      else fileNameWithoutExt_loop os path i)"

definition fileNameWithoutExt :: "goos \<Rightarrow> string \<Rightarrow> string" where
  "fileNameWithoutExt os path = fileNameWithoutExt_loop os path (length path)"

text \<open>
  \<^verbatim>\<open>LoadIncludeDirNamedTag\<close> (lines 80 to 111). \<open>include_dir_named_walk\<close> is the callback
  handed to \<^verbatim>\<open>filepath.WalkDir\<close> (lines 83 to 100), with the slice \<^verbatim>\<open>content\<close> as the
  state of the walk; \<open>include_dir_named_processor\<close> is the closure handed to
  \<^verbatim>\<open>HandleCustomTag\<close>. \<^verbatim>\<open>entry.IsDir()\<close> on a nil entry panics.
\<close>

definition include_dir_named_walk ::
    "'e platform \<Rightarrow> string \<Rightarrow> (node option list, 'e) WalkDirFunc" where
  "include_dir_named_walk P root path entry err content =
     (if path = root then (Ok, content)
      else
        (case entry of
           None \<Rightarrow> (Panic, content)
         | Some isdir \<Rightarrow>
             if isdir then (Ok, content)
             else
               (case LoadFileFragment P path of
                  (fragment, Ok) \<Rightarrow>
                    (Ok, content @
                       [Some (Node ScalarNode ''!!str''
                                (fileNameWithoutExt (GOOS P) (Base P path)) []),
                        fragment])
                | (fragment, r) \<Rightarrow> (r, content))))"

definition include_dir_named_processor :: "'e platform \<Rightarrow> (unit, 'e) TagProcessor" where
  "include_dir_named_processor P n s =
     (case WalkDir P (Value n) (include_dir_named_walk P (Value n)) [] of
        (Ok, content) \<Rightarrow> (Ok, Node MappingNode ''!!map'' '''' content, s)
      | (r, content) \<Rightarrow> (r, n, s))"

definition LoadIncludeDirNamedTag ::
    "'e platform \<Rightarrow> node option \<Rightarrow> 'e result \<times> node option" where
  "LoadIncludeDirNamedTag P n =
     (case HandleCustomTag n ''!include_dir_named'' (include_dir_named_processor P) () of
        (r, n', u) \<Rightarrow> (r, n'))"

section \<open>Shape normalisation\<close>

text \<open>Modelled from the spec: the definition of \<^verbatim>\<open>EnsureList\<close> is missing from the
  source files; README.md documents the function (lines 156 to 168). The specification says of it: if the node is already
  a Sequence it is returned unchanged, else it is wrapped as a single-element Sequence.
  The specification does not give the tag of the wrapper; the sequence tag of YAML is
  taken.
\<close>

definition EnsureList :: "node \<Rightarrow> node" where
  "EnsureList n =
     (if Kind n = SequenceNode then n
      else Node SequenceNode ''!!seq'' '''' [Some n])"

section \<open>Specification-side notions\<close>

subsection \<open>Invocations of the processor\<close>

text \<open>
  \<open>traced fn\<close> is the processor \<open>fn\<close> that also appends the node it is invoked on
  to a log kept in its state; the log of a run is the sequence of invocations of the
  processor, each with the node as it was when the processor received it.
\<close>

definition traced :: "('s, 'e) TagProcessor \<Rightarrow> ('s \<times> node list, 'e) TagProcessor" where
  "traced fn n sl =
     (case sl of (s, log) \<Rightarrow> (case fn n s of (r, n', s') \<Rightarrow> (r, n', (s', log @ [n]))))"

definition outcome :: "'e result \<times> 'a \<times> 's \<Rightarrow> 'e result \<times> 's" where
  "outcome x = (case x of (r, p, s) \<Rightarrow> (r, s))"

subsection \<open>Matches in document order\<close>

text \<open>
  The matches of a tag in a tree, as the specification describes the traversal:
  depth-first and pre-order, a matching node is listed and not entered, the children of a
  sequence are taken from left to right, and of a mapping only the value nodes.
\<close>

fun matches :: "string \<Rightarrow> node option \<Rightarrow> node list"
  and matches_seq :: "string \<Rightarrow> node option list \<Rightarrow> node list"
  and matches_map :: "string \<Rightarrow> node option list \<Rightarrow> node list"
where
  "matches tag None = []"
| "matches tag (Some (Node k t v c)) =
     (if t = tag then [Node k t v c]
      else if k = SequenceNode then matches_seq tag c
      else if k = MappingNode then matches_map tag c
      else [])"
| "matches_seq tag [] = []"
| "matches_seq tag (x # xs) = matches tag x @ matches_seq tag xs"
| "matches_map tag (key # x # xs) = matches tag x @ matches_map tag xs"
| "matches_map tag xs = []"

text \<open>
  \<open>graft tag p rs\<close> is the tree \<open>p\<close> with its first matches, in document order,
  overwritten by the nodes \<open>rs\<close>, one for one; the matches beyond the length of
  \<open>rs\<close> and everything else are as in \<open>p\<close>.
\<close>

fun graft :: "string \<Rightarrow> node option \<Rightarrow> node list \<Rightarrow> node option"
  and graft_seq :: "string \<Rightarrow> node option list \<Rightarrow> node list \<Rightarrow> node option list"
  and graft_map :: "string \<Rightarrow> node option list \<Rightarrow> node list \<Rightarrow> node option list"
where
  "graft tag None rs = None"
| "graft tag (Some (Node k t v c)) rs =
     (if t = tag then (case rs of [] \<Rightarrow> Some (Node k t v c) | r # rs' \<Rightarrow> Some r)
      else if k = SequenceNode then Some (Node k t v (graft_seq tag c rs))
      else if k = MappingNode then Some (Node k t v (graft_map tag c rs))
      else Some (Node k t v c))"
| "graft_seq tag [] rs = []"
| "graft_seq tag (x # xs) rs =
     graft tag x (take (length (matches tag x)) rs)
       # graft_seq tag xs (drop (length (matches tag x)) rs)"
| "graft_map tag (key # x # xs) rs =
     key # graft tag x (take (length (matches tag x)) rs)
       # graft_map tag xs (drop (length (matches tag x)) rs)"
| "graft_map tag xs rs = xs"

text \<open>
  \<open>resolve_all fn ms s\<close> invokes the processor on the nodes \<open>ms\<close> one after the
  other, threading its state, and stops after the first invocation that does not return
  nil. It returns what the processor left of each node it was invoked on.
\<close>

fun resolve_all ::
    "('s, 'e) TagProcessor \<Rightarrow> node list \<Rightarrow> 's \<Rightarrow> 'e result \<times> node list \<times> 's" where
  "resolve_all fn [] s = (Ok, [], s)"
| "resolve_all fn (m # ms) s =
     (case fn m s of
        (Ok, m', s') \<Rightarrow> (case resolve_all fn ms s' of (r, ms', s'') \<Rightarrow> (r, m' # ms', s''))
      | (r, m', s') \<Rightarrow> (r, [m'], s'))"

subsection \<open>Trees\<close>

text \<open>
  A pointer is a tree when it is not nil and no pointer below it is nil: the node trees
  of the specification, and those the YAML parser builds.
\<close>

fun is_tree :: "node option \<Rightarrow> bool"
  and is_forest :: "node option list \<Rightarrow> bool"
where
  "is_tree None = False"
| "is_tree (Some (Node k t v c)) = is_forest c"
| "is_forest [] = True"
| "is_forest (x # xs) = (is_tree x \<and> is_forest xs)"

fun values_are_trees :: "node option list \<Rightarrow> bool" where
  "values_are_trees (key # x # xs) = (is_tree x \<and> values_are_trees xs)"
| "values_are_trees xs = True"

text \<open>No node of the tree carries the tag, in whatever position.\<close>

fun no_match :: "string \<Rightarrow> node option \<Rightarrow> bool"
  and no_match_list :: "string \<Rightarrow> node option list \<Rightarrow> bool"
where
  "no_match tag None = True"
| "no_match tag (Some (Node k t v c)) = (t \<noteq> tag \<and> no_match_list tag c)"
| "no_match_list tag [] = True"
| "no_match_list tag (x # xs) = (no_match tag x \<and> no_match_list tag xs)"

text \<open>
  \<open>rekey g tag p\<close> puts \<open>g key\<close> in the place of every key \<open>key\<close> of every mapping
  of \<open>p\<close> that does not carry the tag and lies under no node that carries it. With
  \<open>g\<close> arbitrary, the key nodes and all their descendants are replaced by anything
  at all, a nil pointer and a node carrying the tag included.
\<close>

fun rekey :: "(node option \<Rightarrow> node option) \<Rightarrow> string \<Rightarrow> node option \<Rightarrow> node option"
  and rekey_seq ::
    "(node option \<Rightarrow> node option) \<Rightarrow> string \<Rightarrow> node option list \<Rightarrow> node option list"
  and rekey_map ::
    "(node option \<Rightarrow> node option) \<Rightarrow> string \<Rightarrow> node option list \<Rightarrow> node option list"
where
  "rekey g tag None = None"
| "rekey g tag (Some (Node k t v c)) =
     (if t = tag then Some (Node k t v c)
      else if k = SequenceNode then Some (Node k t v (rekey_seq g tag c))
      else if k = MappingNode then Some (Node k t v (rekey_map g tag c))
      else Some (Node k t v c))"
| "rekey_seq g tag [] = []"
| "rekey_seq g tag (x # xs) = rekey g tag x # rekey_seq g tag xs"
| "rekey_map g tag (key # x # xs) = g key # rekey g tag x # rekey_map g tag xs"
| "rekey_map g tag [key] = [g key]"
| "rekey_map g tag [] = []"

subsection \<open>Files below a directory\<close>

text \<open>
  \<open>walk_files\<close> lists the paths of the entries that are not directories, at any depth
  below a path, in the order of the walk. \<open>included_files\<close> leaves out the paths equal
  to the root, which the callback skips. \<open>direct_files\<close> follows the words of the
  specification instead: the entries located directly in the directory that are not
  directories.
\<close>

fun walk_files :: "(string \<Rightarrow> string \<Rightarrow> string) \<Rightarrow> string \<Rightarrow> 'e dirtree \<Rightarrow> string list"
  and walk_files_entries ::
    "(string \<Rightarrow> string \<Rightarrow> string) \<Rightarrow> string \<Rightarrow> (string \<times> 'e dirtree) list \<Rightarrow> string list"
where
  "walk_files join path File = [path]"
| "walk_files join path (Directory es rerr) = walk_files_entries join path es"
| "walk_files_entries join path [] = []"
| "walk_files_entries join path ((name, d) # es) =
     walk_files join (join path name) d @ walk_files_entries join path es"

definition included_files :: "'e platform \<Rightarrow> string \<Rightarrow> 'e dirtree \<Rightarrow> string list" where
  "included_files P root d = filter (\<lambda>path. path \<noteq> root) (walk_files (Join P) root d)"

fun direct_files :: "'e platform \<Rightarrow> string \<Rightarrow> 'e dirtree \<Rightarrow> string list" where
  "direct_files P root File = []"
| "direct_files P root (Directory es rerr) =
     map (\<lambda>e. Join P root (fst e)) (filter (\<lambda>e. \<not> IsDir (snd e)) es)"

text \<open>
  The pair a file contributes to the mapping: a string scalar with the base name of the
  path without its extension, and the fragment loaded from the path.
\<close>

definition dir_pair :: "'e platform \<Rightarrow> string \<Rightarrow> node option list" where
  "dir_pair P path =
     [Some (Node ScalarNode ''!!str'' (fileNameWithoutExt (GOOS P) (Base P path)) []),
      fst (LoadFileFragment P path)]"

definition dir_pairs :: "'e platform \<Rightarrow> string list \<Rightarrow> node option list" where
  "dir_pairs P paths = concat (map (dir_pair P) paths)"

definition all_load :: "'e platform \<Rightarrow> string list \<Rightarrow> bool" where
  "all_load P paths = list_all (\<lambda>path. snd (LoadFileFragment P path) = Ok) paths"

section \<open>Examples\<close>

text \<open>Nodes, trees and processors used to instantiate the theorems below.\<close>

definition scalar :: "string \<Rightarrow> node" where
  "scalar s = Node ScalarNode ''!!str'' s []"

definition tagged :: "string \<Rightarrow> node" where
  "tagged s = Node ScalarNode ''!t'' s []"

definition ex_two :: node where
  "ex_two =
     Node MappingNode ''!!map'' ''''
       [Some (scalar ''a''), Some (tagged ''X''), Some (scalar ''b''), Some (tagged ''Y'')]"

definition ex_three :: node where
  "ex_three =
     Node MappingNode ''!!map'' ''''
       [Some (scalar ''a''), Some (tagged ''X''), Some (scalar ''b''), Some (tagged ''Y''),
        Some (scalar ''c''), Some (tagged ''Z'')]"

definition ex_keyed :: node where
  "ex_keyed = Node MappingNode ''!!map'' '''' [Some (tagged ''K''), Some (tagged ''V'')]"

definition ex_plain :: node where
  "ex_plain =
     Node MappingNode ''!!map'' ''''
       [Some (scalar ''a''), Some (Node SequenceNode ''!!seq'' '''' [Some (scalar ''1'')])]"

definition keep :: "(unit, string) TagProcessor" where
  "keep n s = (Ok, n, s)"

definition fail_on_Y :: "(unit, string) TagProcessor" where
  "fail_on_Y n s =
     (if Value n = ''Y'' then (Err ''boom'', n, s) else (Ok, scalar ''resolved'', s))"

definition wrap :: "(unit, string) TagProcessor" where
  "wrap n s = (Ok, Node SequenceNode ''!!seq'' '''' [Some n], s)"

text \<open>
  An example platform. Its file system holds a directory \<^verbatim>\<open>pair\<close> with the files
  \<^verbatim>\<open>a.yaml\<close> and \<^verbatim>\<open>b.yaml\<close>, a directory \<^verbatim>\<open>conf\<close> whose only entry is the
  directory \<^verbatim>\<open>sub\<close> with the file \<^verbatim>\<open>x.yaml\<close>, a directory \<^verbatim>\<open>mk\<close> with the
  file \<^verbatim>\<open>Makefile\<close>, and the file \<^verbatim>\<open>empty.yaml\<close> of zero bytes. \<open>ex_Join\<close> and
  \<open>ex_Base\<close> agree with \<^verbatim>\<open>filepath.Join\<close> and \<^verbatim>\<open>filepath.Base\<close> on the paths
  of this file system; \<open>ex_decode\<close> does to a file that holds one number what the YAML
  decoder does, and to a file of zero bytes what yaml.v3 does.
\<close>

definition ex_Join :: "string \<Rightarrow> string \<Rightarrow> string" where
  "ex_Join path name = path @ ''/'' @ name"

definition ex_Base :: "string \<Rightarrow> string" where
  "ex_Base path = rev (takeWhile (\<lambda>c. c \<noteq> CHR ''/'') (rev path))"

definition ex_conf :: "string dirtree" where
  "ex_conf = Directory [(''sub'', Directory [(''x.yaml'', File)] None)] None"

definition ex_Lstat :: "string \<Rightarrow> string + string dirtree" where
  "ex_Lstat path =
     (if path = ''pair'' then Inr (Directory [(''a.yaml'', File), (''b.yaml'', File)] None)
      else if path = ''conf'' then Inr ex_conf
      else if path = ''mk'' then Inr (Directory [(''Makefile'', File)] None)
      else Inl ''no such file or directory'')"

definition ex_ReadFile :: "string \<Rightarrow> string + string" where
  "ex_ReadFile path =
     (if path = ''pair/a.yaml'' then Inr ''1''
      else if path = ''pair/b.yaml'' then Inr ''2''
      else if path = ''conf/sub/x.yaml'' then Inr ''3''
      else if path = ''mk/Makefile'' then Inr ''4''
      else if path = ''empty.yaml'' then Inr ''''
      else Inl ''no such file or directory'')"

definition ex_decode :: "string \<Rightarrow> string + node option" where
  "ex_decode data =
     (if data = '''' then Inr None else Inr (Some (Node ScalarNode ''!!int'' data [])))"

definition ex_platform :: "string platform" where
  "ex_platform =
     \<lparr>GOOS = Unix, ReadFile = ex_ReadFile, yaml_decode = ex_decode, Lstat = ex_Lstat,
      Join = ex_Join, Base = ex_Base\<rparr>"

section \<open>Properties of the traversal\<close>

lemma is_forest_values: "is_forest c \<Longrightarrow> values_are_trees c"
  by (induction c rule: values_are_trees.induct) auto

lemma graft_Nil:
  "graft tag p [] = p" "graft_seq tag c [] = c" "graft_map tag c [] = c"
  by (induction tag p "[]::node list" and tag c "[]::node list" and tag c "[]::node list"
      rule: graft_graft_seq_graft_map.induct) auto

lemma resolve_all_length:
  "resolve_all fn ms s = (r, rs, s') \<Longrightarrow>
     length rs \<le> length ms \<and> (r = Ok \<longrightarrow> length rs = length ms)"
  by (induction ms arbitrary: s r rs s') (auto split: prod.splits result.splits)

lemma resolve_all_append:
  "resolve_all fn (xs @ ys) s =
     (case resolve_all fn xs s of
        (Ok, xs', s') \<Rightarrow> (case resolve_all fn ys s' of (r, ys', s'') \<Rightarrow> (r, xs' @ ys', s''))
      | (r, xs', s') \<Rightarrow> (r, xs', s'))"
  by (induction xs arbitrary: s) (auto split: prod.splits result.splits)

text \<open>
  On a tree, the traversal is the run of the processor over the matches in document
  order, and its result is the tree with the nodes the processor was invoked on
  overwritten by what the processor left of them.
\<close>

lemma HandleCustomTag_char:
  "is_tree p \<Longrightarrow>
     HandleCustomTag p tag fn s =
       (case resolve_all fn (matches tag p) s of (r, rs, s') \<Rightarrow> (r, graft tag p rs, s'))"
  "is_forest c \<Longrightarrow>
     range_Content c tag fn s =
       (case resolve_all fn (matches_seq tag c) s of
          (r, rs, s') \<Rightarrow> (r, graft_seq tag c rs, s'))"
  "values_are_trees c \<Longrightarrow>
     values_Content c tag fn s =
       (case resolve_all fn (matches_map tag c) s of
          (r, rs, s') \<Rightarrow> (r, graft_map tag c rs, s'))"
proof (induction p tag fn s and c tag fn s and c tag fn s
       rule: HandleCustomTag_range_Content_values_Content.induct)
  case (1 tag fn s)
  then show ?case by simp
next
  case (2 k t v c tag fn s)
  then show ?case
    by (auto simp: is_forest_values split: prod.splits result.splits)
next
  case (3 tag fn s)
  then show ?case by simp
next
  case (4 x xs tag fn s)
  obtain r1 rs1 s1 where R1: "resolve_all fn (matches tag x) s = (r1, rs1, s1)"
    by (cases "resolve_all fn (matches tag x) s") auto
  from 4 have H: "HandleCustomTag x tag fn s = (r1, graft tag x rs1, s1)"
    by (simp add: R1)
  note L = resolve_all_length [OF R1]
  show ?case
  proof (cases r1)
    case Ok
    obtain r2 rs2 s2 where R2: "resolve_all fn (matches_seq tag xs) s1 = (r2, rs2, s2)"
      by (cases "resolve_all fn (matches_seq tag xs) s1") auto
    from 4 H Ok have "range_Content xs tag fn s1 = (r2, graft_seq tag xs rs2, s2)"
      by (simp add: R2)
    with H Ok L show ?thesis
      by (simp add: resolve_all_append R1 R2)
  next
    case (Err e)
    with H L show ?thesis
      by (simp add: resolve_all_append R1 graft_Nil)
  next
    case Panic
    with H L show ?thesis
      by (simp add: resolve_all_append R1 graft_Nil)
  qed
next
  case (5 key x xs tag fn s)
  obtain r1 rs1 s1 where R1: "resolve_all fn (matches tag x) s = (r1, rs1, s1)"
    by (cases "resolve_all fn (matches tag x) s") auto
  from 5 have H: "HandleCustomTag x tag fn s = (r1, graft tag x rs1, s1)"
    by (simp add: R1)
  note L = resolve_all_length [OF R1]
  show ?case
  proof (cases r1)
    case Ok
    obtain r2 rs2 s2 where R2: "resolve_all fn (matches_map tag xs) s1 = (r2, rs2, s2)"
      by (cases "resolve_all fn (matches_map tag xs) s1") auto
    from 5 H Ok have "values_Content xs tag fn s1 = (r2, graft_map tag xs rs2, s2)"
      by (simp add: R2)
    with H Ok L show ?thesis
      by (simp add: resolve_all_append R1 R2)
  next
    case (Err e)
    with H L show ?thesis
      by (simp add: resolve_all_append R1 graft_Nil)
  next
    case Panic
    with H L show ?thesis
      by (simp add: resolve_all_append R1 graft_Nil)
  qed
qed simp_all

lemma no_match_matches:
  "no_match tag p \<Longrightarrow> matches tag p = []"
  "no_match_list tag c \<Longrightarrow> matches_seq tag c = []"
  "no_match_list tag c \<Longrightarrow> matches_map tag c = []"
  by (induction tag p and tag c and tag c rule: matches_matches_seq_matches_map.induct) auto

text \<open>What stands in key position has no part in how the traversal ends.\<close>

lemma rekey_outcome:
  "outcome (HandleCustomTag (rekey g tag p) tag fn s) = outcome (HandleCustomTag p tag fn s)"
  "outcome (range_Content (rekey_seq g tag c) tag fn s) = outcome (range_Content c tag fn s)"
  "outcome (values_Content (rekey_map g tag c) tag fn s)
     = outcome (values_Content c tag fn s)"
proof (induction p tag fn s and c tag fn s and c tag fn s
       rule: HandleCustomTag_range_Content_values_Content.induct)
  case (2 k t v c tag fn s)
  then show ?case
    by (auto simp: outcome_def split: prod.splits)
next
  case (4 x xs tag fn s)
  then show ?case
    by (auto simp: outcome_def split: prod.splits result.splits)
next
  case (5 key x xs tag fn s)
  then show ?case
    by (auto simp: outcome_def split: prod.splits result.splits)
qed (simp_all add: outcome_def)

text \<open>
  The log of a run grows by an initial segment of the matches in document order, and by
  all of them when the run returns nil. No assumption on the pointers is needed.
\<close>

lemma trace_prefix:
  "HandleCustomTag p tag fn' sl = (r, p', sl') \<Longrightarrow> fn' = traced fn \<Longrightarrow>
     \<exists>d. snd sl' = snd sl @ d \<and> prefix d (matches tag p) \<and> (r = Ok \<longrightarrow> d = matches tag p)"
  "range_Content c tag fn' sl = (r, c', sl') \<Longrightarrow> fn' = traced fn \<Longrightarrow>
     \<exists>d. snd sl' = snd sl @ d \<and> prefix d (matches_seq tag c)
       \<and> (r = Ok \<longrightarrow> d = matches_seq tag c)"
  "values_Content c tag fn' sl = (r, c', sl') \<Longrightarrow> fn' = traced fn \<Longrightarrow>
     \<exists>d. snd sl' = snd sl @ d \<and> prefix d (matches_map tag c)
       \<and> (r = Ok \<longrightarrow> d = matches_map tag c)"
proof (induction p tag fn' sl and c tag fn' sl and c tag fn' sl
       arbitrary: r p' sl' and r c' sl' and r c' sl'
       rule: HandleCustomTag_range_Content_values_Content.induct)
  case (1 tag fn' s)
  then show ?case by auto
next
  case (2 k t v c tag fn' s)
  show ?case
  proof (cases "t = tag")
    case True
    with 2(3,4) show ?thesis
      by (auto simp: traced_def split: prod.splits)
  next
    case False
    with 2 show ?thesis
      by (auto split: prod.splits if_splits)
  qed
next
  case (3 tag fn' s)
  then show ?case by auto
next
  case (4 x xs tag fn' s)
  obtain r1 x' s1 where H: "HandleCustomTag x tag fn' s = (r1, x', s1)"
    by (cases "HandleCustomTag x tag fn' s") auto
  from 4(1) [OF H 4(4)] obtain d1 where
    D1: "snd s1 = snd s @ d1" "prefix d1 (matches tag x)" "r1 = Ok \<longrightarrow> d1 = matches tag x"
    by blast
  show ?case
  proof (cases "r1 = Ok")
    case True
    obtain r2 xs' s2 where H2: "range_Content xs tag fn' s1 = (r2, xs', s2)"
      by (cases "range_Content xs tag fn' s1") auto
    from 4(2) [OF _ True _ H2 4(4)] H obtain d2 where
      D2: "snd s2 = snd s1 @ d2" "prefix d2 (matches_seq tag xs)"
          "r2 = Ok \<longrightarrow> d2 = matches_seq tag xs"
      by metis
    from 4(3) H H2 True have "r = r2" "sl' = s2" by auto
    with D1 D2 True show ?thesis by auto
  next
    case False
    with 4(3) H have "r = r1" "sl' = s1" by (auto split: result.splits)
    with D1 False show ?thesis by (auto simp: prefix_def)
  qed
next
  case (5 key x xs tag fn' s)
  obtain r1 x' s1 where H: "HandleCustomTag x tag fn' s = (r1, x', s1)"
    by (cases "HandleCustomTag x tag fn' s") auto
  from 5(1) [OF H 5(4)] obtain d1 where
    D1: "snd s1 = snd s @ d1" "prefix d1 (matches tag x)" "r1 = Ok \<longrightarrow> d1 = matches tag x"
    by blast
  show ?case
  proof (cases "r1 = Ok")
    case True
    obtain r2 xs' s2 where H2: "values_Content xs tag fn' s1 = (r2, xs', s2)"
      by (cases "values_Content xs tag fn' s1") auto
    from 5(2) [OF _ True _ H2 5(4)] H obtain d2 where
      D2: "snd s2 = snd s1 @ d2" "prefix d2 (matches_map tag xs)"
          "r2 = Ok \<longrightarrow> d2 = matches_map tag xs"
      by metis
    from 5(3) H H2 True have "r = r2" "sl' = s2" by auto
    with D1 D2 True show ?thesis by auto
  next
    case False
    with 5(3) H have "r = r1" "sl' = s1" by (auto split: result.splits)
    with D1 False show ?thesis by (auto simp: prefix_def)
  qed
qed auto

text \<open>
  Running the traced processor over a list of nodes is running the processor over it, with
  the nodes it was invoked on appended to the log: as many of the list, from its front,
  as there are results.
\<close>

lemma resolve_all_traced:
  "resolve_all (traced fn) ms (s, log) =
     (case resolve_all fn ms s of
        (r, rs, s') \<Rightarrow> (r, rs, (s', log @ take (length rs) ms)))"
proof (induction ms arbitrary: s log)
  case Nil
  then show ?case by simp
next
  case (Cons m ms)
  obtain r1 m' s1 where F: "fn m s = (r1, m', s1)"
    by (cases "fn m s") auto
  show ?case
  proof (cases r1)
    case Ok
    with F Cons [of s1 "log @ [m]"] show ?thesis
      by (simp add: traced_def split: prod.splits)
  next
    case (Err e)
    with F show ?thesis by (simp add: traced_def)
  next
    case Panic
    with F show ?thesis by (simp add: traced_def)
  qed
qed

lemma resolve_all_succeeds:
  "(\<And>n t. fst (fn n t) = Ok) \<Longrightarrow>
     fst (resolve_all fn ms s) = Ok \<and> length (fst (snd (resolve_all fn ms s))) = length ms"
proof (induction ms arbitrary: s)
  case Nil
  then show ?case by simp
next
  case (Cons m ms)
  obtain m' s1 where F: "fn m s = (Ok, m', s1)"
    using Cons.prems [of m s] by (cases "fn m s") auto
  from Cons.IH [OF Cons.prems, of s1] F show ?case
    by (cases "resolve_all fn ms s1") auto
qed

section \<open>Properties of the directory walk\<close>

lemma all_load_append: "all_load P (xs @ ys) = (all_load P xs \<and> all_load P ys)"
  by (simp add: all_load_def)

lemma dir_pairs_append: "dir_pairs P (xs @ ys) = dir_pairs P xs @ dir_pairs P ys"
  by (simp add: dir_pairs_def)

lemma walk_dir_callback:
  "include_dir_named_walk P root path (Some True) err content = (Ok, content)"
  by (simp add: include_dir_named_walk_def)

lemma walk_file_callback:
  "all_load P (filter (\<lambda>p. p \<noteq> root) [path]) \<Longrightarrow>
     include_dir_named_walk P root path (Some False) err content
       = (Ok, content @ dir_pairs P (filter (\<lambda>p. p \<noteq> root) [path]))"
  by (cases "LoadFileFragment P path")
     (auto simp: include_dir_named_walk_def all_load_def dir_pairs_def dir_pair_def)

lemma walkDir_include_dir_named:
  "all_load P (filter (\<lambda>p. p \<noteq> root) (walk_files join path d)) \<Longrightarrow>
   fn = include_dir_named_walk P root \<Longrightarrow>
     walkDir join path d fn content
       = (Ok, content @ dir_pairs P (filter (\<lambda>p. p \<noteq> root) (walk_files join path d)))"
  "all_load P (filter (\<lambda>p. p \<noteq> root) (walk_files_entries join path es)) \<Longrightarrow>
   fn = include_dir_named_walk P root \<Longrightarrow>
     walkDir_entries join path es fn content
       = (Ok, content
            @ dir_pairs P (filter (\<lambda>p. p \<noteq> root) (walk_files_entries join path es)))"
proof (induction join path d fn content and join path es fn content
       rule: walkDir_walkDir_entries.induct)
  case (1 join path fn a)
  then show ?case using walk_file_callback [of P root path] by simp
next
  case (2 join path es rerr fn a)
  then show ?case by (cases rerr) (simp_all add: walk_dir_callback)
next
  case (3 join path fn a)
  then show ?case by (simp add: dir_pairs_def)
next
  case (4 join path name d es fn a)
  then show ?case by (simp add: all_load_append dir_pairs_append)
qed

lemma fileNameWithoutExt_loop_no_dot:
  "CHR ''.'' \<notin> set name \<Longrightarrow> i \<le> length name \<Longrightarrow> fileNameWithoutExt_loop os name i = ''''"
proof (induction i)
  case 0
  then show ?case by simp
next
  case (Suc i)
  from Suc.prems have "i < length name" by simp
  with Suc.prems(1) have "name ! i \<noteq> CHR ''.''" by (metis nth_mem)
  with Suc show ?case by simp
qed

lemmas tree_defs = scalar_def tagged_def ex_two_def ex_three_def ex_keyed_def ex_plain_def
  keep_def fail_on_Y_def wrap_def traced_def

lemmas fs_defs = ex_Join_def ex_Base_def ex_Lstat_def ex_ReadFile_def ex_decode_def
  ex_conf_def ex_platform_def LoadFileFragment_def yaml_Unmarshal_def UnmarshalYAML_def
  include_dir_named_walk_def include_dir_named_processor_def LoadIncludeDirNamedTag_def
  WalkDir_def fileNameWithoutExt_def include_processor_def LoadIncludeTag_def

section \<open>The claims\<close>

text \<open>
  Claim C1, as amended. \<^verbatim>\<open>LoadIncludeDirNamedTag\<close> does not stop at the files located
  directly in the named directory: \<^verbatim>\<open>filepath.WalkDir\<close> descends into every
  sub-directory, and the callback answers nil for a directory, which lets the walk go on.
  When every file below the directory loads, the tag node becomes a mapping with one pair
  for every entry that is not a directory, at any depth below the directory, in the order
  of the walk; an entry that is a directory contributes no pair of its own.
\<close>

theorem LoadIncludeDirNamedTag_recursive:
  assumes "Lstat P dir = Inr d"
    and "all_load P (included_files P dir d)"
  shows "LoadIncludeDirNamedTag P (Some (Node k ''!include_dir_named'' dir c))
           = (Ok, Some (Node MappingNode ''!!map'' ''''
                (dir_pairs P (included_files P dir d))))"
  using assms walkDir_include_dir_named(1) [of P dir "Join P" dir d _ "[]"]
  by (simp add: LoadIncludeDirNamedTag_def include_dir_named_processor_def WalkDir_def
        included_files_def)

theorem LoadIncludeDirNamedTag_recursive_witness:
  "Lstat ex_platform ''conf'' = Inr ex_conf
   \<and> included_files ex_platform ''conf'' ex_conf = [''conf/sub/x.yaml'']
   \<and> all_load ex_platform (included_files ex_platform ''conf'' ex_conf)
   \<and> LoadIncludeDirNamedTag ex_platform
        (Some (Node ScalarNode ''!include_dir_named'' ''conf'' []))
       = (Ok, Some (Node MappingNode ''!!map'' ''''
            (dir_pairs ex_platform (included_files ex_platform ''conf'' ex_conf))))"
proof -
  have 1: "Lstat ex_platform ''conf'' = Inr ex_conf"
    by (simp add: ex_platform_def ex_Lstat_def)
  have 2: "included_files ex_platform ''conf'' ex_conf = [''conf/sub/x.yaml'']"
    by (simp add: included_files_def ex_platform_def ex_conf_def ex_Join_def)
  have 3: "all_load ex_platform (included_files ex_platform ''conf'' ex_conf)"
    unfolding 2 by (simp add: all_load_def fs_defs)
  from LoadIncludeDirNamedTag_recursive [OF 1 3, of ScalarNode "[]"] 1 2 3
  show ?thesis by simp
qed

text \<open>
  Claim C1, as stated, fails: the directory \<^verbatim>\<open>conf\<close> of the example platform holds no
  file directly, only the sub-directory \<^verbatim>\<open>sub\<close> with the file \<^verbatim>\<open>x.yaml\<close>, and the
  resulting mapping has the pair of that file.
\<close>

theorem LoadIncludeDirNamedTag_subdirectory_file_included:
  "Lstat ex_platform ''conf'' = Inr ex_conf
   \<and> direct_files ex_platform ''conf'' ex_conf = []
   \<and> LoadIncludeDirNamedTag ex_platform
        (Some (Node ScalarNode ''!include_dir_named'' ''conf'' []))
       = (Ok, Some (Node MappingNode ''!!map'' ''''
            [Some (Node ScalarNode ''!!str'' ''x'' []),
             Some (Node ScalarNode ''!!int'' ''3'' [])]))"
  by (simp add: fs_defs eval_nat_numeral)

text \<open>
  Claim C2. On a tree whose first two matches in document order are \<open>m1\<close> and \<open>m2\<close>,
  with a processor that succeeds on \<open>m1\<close> and returns the error \<open>e\<close> on \<open>m2\<close>,
  \<^verbatim>\<open>HandleCustomTag\<close> returns \<open>e\<close>; the tree it leaves has the replacement of
  \<open>m1\<close> in the place of \<open>m1\<close>, what the processor left of \<open>m2\<close> in the place of
  \<open>m2\<close>, and is otherwise as before; and the processor has been invoked on \<open>m1\<close>
  and on \<open>m2\<close> and on nothing else.
\<close>

theorem HandleCustomTag_error_on_second:
  assumes "is_tree p"
    and "matches tag p = m1 # m2 # rest"
    and "fn m1 s = (Ok, m1', s1)"
    and "fn m2 s1 = (Err e, m2', s2)"
  shows "HandleCustomTag p tag (traced fn) (s, log)
           = (Err e, graft tag p [m1', m2'], (s2, log @ [m1, m2]))"
  using assms by (simp add: HandleCustomTag_char(1) traced_def)

theorem HandleCustomTag_error_on_second_witness:
  "HandleCustomTag (Some ex_three) ''!t'' (traced fail_on_Y) ((), [])
     = (Err ''boom'',
        Some (Node MappingNode ''!!map'' ''''
          [Some (scalar ''a''), Some (scalar ''resolved''), Some (scalar ''b''),
           Some (tagged ''Y''), Some (scalar ''c''), Some (tagged ''Z'')]),
        ((), [tagged ''X'', tagged ''Y'']))"
proof -
  have 1: "is_tree (Some ex_three)" by (simp add: tree_defs)
  have 2: "matches ''!t'' (Some ex_three) = tagged ''X'' # tagged ''Y'' # [tagged ''Z'']"
    by (simp add: tree_defs)
  have 3: "fail_on_Y (tagged ''X'') () = (Ok, scalar ''resolved'', ())"
    by (simp add: tree_defs)
  have 4: "fail_on_Y (tagged ''Y'') () = (Err ''boom'', tagged ''Y'', ())"
    by (simp add: tree_defs)
  show ?thesis
    using HandleCustomTag_error_on_second
            [where fn = fail_on_Y and s = "()" and log = "[]", OF 1 2 3 4]
    by (simp add: scalar_def tagged_def ex_three_def)
qed

text \<open>
  Claim C3. \<^verbatim>\<open>HandleCustomTag\<close> invokes the processor on the matches in document
  order. On a tree the run is the run of the processor over the list of matches in
  document order, one after the other until the first that does not return nil: the log
  grows by exactly the matches it was invoked on, in that order, and a processor that
  always succeeds is invoked on every match and the call returns nil. On any pointer the
  log grows by an initial segment of that list. For the mapping
  \<^verbatim>\<open>{a: !t X, b: !t Y}\<close> a processor that appends to a log sees \<^verbatim>\<open>X\<close> before
  \<^verbatim>\<open>Y\<close>.
\<close>

theorem HandleCustomTag_document_order:
  "(is_tree p \<longrightarrow>
      HandleCustomTag p tag (traced fn) (s, log) =
        (case resolve_all fn (matches tag p) s of
           (r, rs, s') \<Rightarrow> (r, graft tag p rs, (s', log @ take (length rs) (matches tag p)))))
   \<and> (is_tree p \<and> (\<forall>n t. fst (fn n t) = Ok) \<longrightarrow>
        fst (HandleCustomTag p tag (traced fn) (s, log)) = Ok
        \<and> snd (snd (snd (HandleCustomTag p tag (traced fn) (s, log)))) = log @ matches tag p)
   \<and> (HandleCustomTag p tag (traced fn) (s, log) = (r, p', (s', log')) \<longrightarrow>
        prefix log log' \<and> prefix log' (log @ matches tag p)
        \<and> (r = Ok \<longrightarrow> log' = log @ matches tag p))"
proof -
  have A: "HandleCustomTag p tag (traced fn) (s, log) =
        (case resolve_all fn (matches tag p) s of
           (r, rs, s') \<Rightarrow> (r, graft tag p rs, (s', log @ take (length rs) (matches tag p))))"
    if "is_tree p"
    using that by (simp add: HandleCustomTag_char(1) resolve_all_traced split: prod.splits)
  have B: "fst (HandleCustomTag p tag (traced fn) (s, log)) = Ok
        \<and> snd (snd (snd (HandleCustomTag p tag (traced fn) (s, log)))) = log @ matches tag p"
    if "is_tree p" and ok: "\<forall>n t. fst (fn n t) = Ok"
  proof -
    from ok have "\<And>n t. fst (fn n t) = Ok" by simp
    from resolve_all_succeeds [of fn "matches tag p" s, OF this] A [OF that(1)]
    show ?thesis by (simp split: prod.splits)
  qed
  have C: "prefix log log' \<and> prefix log' (log @ matches tag p)
        \<and> (r = Ok \<longrightarrow> log' = log @ matches tag p)"
    if "HandleCustomTag p tag (traced fn) (s, log) = (r, p', (s', log'))"
    using trace_prefix(1) [OF that refl] by auto
  from A B C show ?thesis by blast
qed

theorem HandleCustomTag_document_order_witness:
  "is_tree (Some ex_two)
   \<and> matches ''!t'' (Some ex_two) = [tagged ''X'', tagged ''Y'']
   \<and> HandleCustomTag (Some ex_two) ''!t'' (traced keep) ((), [])
       = (Ok, Some ex_two, ((), [tagged ''X'', tagged ''Y'']))"
proof -
  have 1: "is_tree (Some ex_two)" by (simp add: tree_defs)
  have 2: "matches ''!t'' (Some ex_two) = [tagged ''X'', tagged ''Y'']"
    by (simp add: tree_defs)
  have 3: "resolve_all keep [tagged ''X'', tagged ''Y''] ()
             = (Ok, [tagged ''X'', tagged ''Y''], ())"
    by (simp add: keep_def)
  have 4: "graft ''!t'' (Some ex_two) [tagged ''X'', tagged ''Y''] = Some ex_two"
    by (simp add: tree_defs)
  from HandleCustomTag_document_order [of "Some ex_two" "''!t''" keep "()" "[]"] 1
  have "HandleCustomTag (Some ex_two) ''!t'' (traced keep) ((), []) =
        (case resolve_all keep (matches ''!t'' (Some ex_two)) () of
           (r, rs, s') \<Rightarrow>
             (r, graft ''!t'' (Some ex_two) rs,
              (s', [] @ take (length rs) (matches ''!t'' (Some ex_two)))))"
    by blast
  with 1 2 3 4 show ?thesis by simp
qed

text \<open>
  Claim C4. On a node that carries the tag, \<^verbatim>\<open>HandleCustomTag\<close> invokes the processor
  once, on that node, and returns what the processor returned: the node as the processor
  left it is the result, whatever it contains, and is not looked into.
\<close>

theorem HandleCustomTag_match_once:
  assumes "Tag n = tag"
  shows "HandleCustomTag (Some n) tag (traced fn) (s, log)
           = (case fn n s of (r, n', s') \<Rightarrow> (r, Some n', (s', log @ [n])))"
  using assms by (cases n) (simp add: traced_def split: prod.splits)

theorem HandleCustomTag_match_once_witness:
  "Tag (tagged ''X'') = ''!t'' \<and>
   HandleCustomTag (Some (tagged ''X'')) ''!t'' (traced wrap) ((), [])
     = (Ok, Some (Node SequenceNode ''!!seq'' '''' [Some (tagged ''X'')]),
        ((), [tagged ''X'']))"
proof -
  have h: "Tag (tagged ''X'') = ''!t''" by (simp add: tagged_def)
  from HandleCustomTag_match_once [OF h, of wrap "()" "[]"] h show ?thesis
    by (simp add: wrap_def)
qed

text \<open>
  Claim C5. The processor is invoked on no node in key position of a mapping and on no
  descendant of one: whatever is put in the place of the keys of the mappings the
  traversal enters, \<^verbatim>\<open>HandleCustomTag\<close> ends the same way with the same state of the
  processor, and so with the same invocations, node for node, in the log. (For a root
  that carries the tag \<open>rekey\<close> changes nothing.)
\<close>

theorem HandleCustomTag_skips_keys:
  "outcome (HandleCustomTag (rekey g tag p) tag (traced fn) (s, log))
     = outcome (HandleCustomTag p tag (traced fn) (s, log))"
  by (rule rekey_outcome(1))

theorem HandleCustomTag_skips_keys_witness:
  "rekey (\<lambda>key. None) ''!t'' (Some ex_keyed)
     = Some (Node MappingNode ''!!map'' '''' [None, Some (tagged ''V'')])
   \<and> outcome (HandleCustomTag (Some ex_keyed) ''!t'' (traced keep) ((), []))
       = (Ok, ((), [tagged ''V'']))"
proof -
  have "outcome (HandleCustomTag (rekey (\<lambda>key. None) ''!t'' (Some ex_keyed)) ''!t''
          (traced keep) ((), [])) = (Ok, ((), [tagged ''V'']))"
    by (simp add: tree_defs outcome_def)
  with HandleCustomTag_skips_keys [of "\<lambda>key. None" "''!t''" "Some ex_keyed" keep "()" "[]"]
  show ?thesis by (simp add: tree_defs)
qed

text \<open>
  Claim C6. On a tree none of whose nodes carries the tag, \<^verbatim>\<open>HandleCustomTag\<close> returns
  nil, the tree is as it was, and so is the state of the processor.
\<close>

theorem HandleCustomTag_no_match:
  assumes "is_tree p" and "no_match tag p"
  shows "HandleCustomTag p tag fn s = (Ok, p, s)"
  using assms by (simp add: HandleCustomTag_char(1) no_match_matches(1) graft_Nil(1))

theorem HandleCustomTag_no_match_witness:
  "is_tree (Some ex_plain) \<and> no_match ''!t'' (Some ex_plain)
   \<and> HandleCustomTag (Some ex_plain) ''!t'' wrap () = (Ok, Some ex_plain, ())"
proof -
  have 1: "is_tree (Some ex_plain)" by (simp add: tree_defs)
  have 2: "no_match ''!t'' (Some ex_plain)" by (simp add: tree_defs)
  from HandleCustomTag_no_match [OF 1 2, of wrap "()"] 1 2 show ?thesis by simp
qed

text \<open>
  Claim C7. For a node tagged \<^verbatim>\<open>!include_dir_named\<close> that names a directory holding
  exactly the files \<^verbatim>\<open>a.yaml\<close> with the bytes \<^verbatim>\<open>1\<close> and \<^verbatim>\<open>b.yaml\<close> with the
  bytes \<^verbatim>\<open>2\<close>, the node is overwritten by a mapping node tagged \<^verbatim>\<open>!!map\<close> whose
  pairs are the string scalar \<^verbatim>\<open>a\<close> with the node parsed from \<^verbatim>\<open>1\<close>, then the
  string scalar \<^verbatim>\<open>b\<close> with the node parsed from \<^verbatim>\<open>2\<close>.
\<close>

theorem LoadIncludeDirNamedTag_two_files:
  assumes "Lstat P dir = Inr (Directory [(''a.yaml'', File), (''b.yaml'', File)] None)"
    and "Join P dir ''a.yaml'' = pa" and "Join P dir ''b.yaml'' = pb"
    and "pa \<noteq> dir" and "pb \<noteq> dir"
    and "Base P pa = ''a.yaml''" and "Base P pb = ''b.yaml''"
    and "ReadFile P pa = Inr ''1''" and "ReadFile P pb = Inr ''2''"
    and "yaml_decode P ''1'' = Inr (Some n1)" and "yaml_decode P ''2'' = Inr (Some n2)"
  shows "LoadIncludeDirNamedTag P (Some (Node k ''!include_dir_named'' dir c))
           = (Ok, Some (Node MappingNode ''!!map'' ''''
                [Some (Node ScalarNode ''!!str'' ''a'' []), Some n1,
                 Some (Node ScalarNode ''!!str'' ''b'' []), Some n2]))"
proof -
  have a: "fileNameWithoutExt (GOOS P) ''a.yaml'' = ''a''"
    by (cases "GOOS P") (simp_all add: fileNameWithoutExt_def eval_nat_numeral)
  have b: "fileNameWithoutExt (GOOS P) ''b.yaml'' = ''b''"
    by (cases "GOOS P") (simp_all add: fileNameWithoutExt_def eval_nat_numeral)
  have la: "LoadFileFragment P pa = (Some n1, Ok)"
    using assms by (simp add: LoadFileFragment_def yaml_Unmarshal_def UnmarshalYAML_def)
  have lb: "LoadFileFragment P pb = (Some n2, Ok)"
    using assms by (simp add: LoadFileFragment_def yaml_Unmarshal_def UnmarshalYAML_def)
  show ?thesis
    using assms a b la lb
    by (simp add: LoadIncludeDirNamedTag_def include_dir_named_processor_def WalkDir_def
          include_dir_named_walk_def)
qed

theorem LoadIncludeDirNamedTag_two_files_witness:
  "LoadIncludeDirNamedTag ex_platform
     (Some (Node ScalarNode ''!include_dir_named'' ''pair'' []))
     = (Ok, Some (Node MappingNode ''!!map'' ''''
          [Some (Node ScalarNode ''!!str'' ''a'' []), Some (Node ScalarNode ''!!int'' ''1'' []),
           Some (Node ScalarNode ''!!str'' ''b'' []), Some (Node ScalarNode ''!!int'' ''2'' [])]))"
proof -
  have 1: "Lstat ex_platform ''pair''
             = Inr (Directory [(''a.yaml'', File), (''b.yaml'', File)] None)"
    by (simp add: ex_platform_def ex_Lstat_def)
  have 2: "Join ex_platform ''pair'' ''a.yaml'' = ''pair/a.yaml''"
    by (simp add: ex_platform_def ex_Join_def)
  have 3: "Join ex_platform ''pair'' ''b.yaml'' = ''pair/b.yaml''"
    by (simp add: ex_platform_def ex_Join_def)
  have 4: "''pair/a.yaml'' \<noteq> ''pair''" by simp
  have 5: "''pair/b.yaml'' \<noteq> ''pair''" by simp
  have 6: "Base ex_platform ''pair/a.yaml'' = ''a.yaml''"
    by (simp add: ex_platform_def ex_Base_def)
  have 7: "Base ex_platform ''pair/b.yaml'' = ''b.yaml''"
    by (simp add: ex_platform_def ex_Base_def)
  have 8: "ReadFile ex_platform ''pair/a.yaml'' = Inr ''1''"
    by (simp add: ex_platform_def ex_ReadFile_def)
  have 9: "ReadFile ex_platform ''pair/b.yaml'' = Inr ''2''"
    by (simp add: ex_platform_def ex_ReadFile_def)
  have 10: "yaml_decode ex_platform ''1'' = Inr (Some (Node ScalarNode ''!!int'' ''1'' []))"
    by (simp add: ex_platform_def ex_decode_def)
  have 11: "yaml_decode ex_platform ''2'' = Inr (Some (Node ScalarNode ''!!int'' ''2'' []))"
    by (simp add: ex_platform_def ex_decode_def)
  show ?thesis
    by (rule LoadIncludeDirNamedTag_two_files [OF 1 2 3 4 5 6 7 8 9 10 11])
qed

text \<open>
  Claim C8. For a node that is not a sequence, \<^verbatim>\<open>EnsureList\<close> returns a sequence node
  whose only child is that node; for a node that is a sequence it returns the node itself.
\<close>

theorem EnsureList_spec:
  "(Kind n \<noteq> SequenceNode \<longrightarrow>
      Kind (EnsureList n) = SequenceNode \<and> Content (EnsureList n) = [Some n])
   \<and> (Kind n = SequenceNode \<longrightarrow> EnsureList n = n)"
  by (simp add: EnsureList_def)

theorem EnsureList_spec_witness:
  "Kind (scalar ''x'') \<noteq> SequenceNode
   \<and> Kind (EnsureList (scalar ''x'')) = SequenceNode
   \<and> Content (EnsureList (scalar ''x'')) = [Some (scalar ''x'')]
   \<and> Kind (Node SequenceNode ''!!seq'' '''' [Some (scalar ''x'')]) = SequenceNode
   \<and> EnsureList (Node SequenceNode ''!!seq'' '''' [Some (scalar ''x'')])
       = Node SequenceNode ''!!seq'' '''' [Some (scalar ''x'')]"
  using EnsureList_spec [of "scalar ''x''"]
    EnsureList_spec [of "Node SequenceNode ''!!seq'' '''' [Some (scalar ''x'')]"]
  by (simp add: scalar_def)

text \<open>
  Claim C9 does not hold of the code. When the decoder returns nil without calling
  \<^verbatim>\<open>UnmarshalYAML\<close>, as yaml.v3 does for a file of zero bytes, \<^verbatim>\<open>LoadFileFragment\<close>
  returns a nil pointer together with a nil error, and \<^verbatim>\<open>LoadIncludeTag\<close> panics on
  \<^verbatim>\<open>*n = *fragment\<close>, leaving the tag node as it was.
\<close>

theorem LoadFileFragment_nil_without_error:
  assumes "ReadFile P path = Inr data" and "yaml_decode P data = Inr None"
  shows "LoadFileFragment P path = (None, Ok)
         \<and> LoadIncludeTag P (Some (Node k ''!include'' path c))
             = (Panic, Some (Node k ''!include'' path c))"
  using assms
  by (simp add: LoadFileFragment_def yaml_Unmarshal_def LoadIncludeTag_def
        include_processor_def)

theorem LoadFileFragment_nil_without_error_witness:
  "ReadFile ex_platform ''empty.yaml'' = Inr ''''
   \<and> yaml_decode ex_platform '''' = Inr None
   \<and> LoadFileFragment ex_platform ''empty.yaml'' = (None, Ok)
   \<and> LoadIncludeTag ex_platform (Some (Node ScalarNode ''!include'' ''empty.yaml'' []))
       = (Panic, Some (Node ScalarNode ''!include'' ''empty.yaml'' []))"
proof -
  have 1: "ReadFile ex_platform ''empty.yaml'' = Inr ''''"
    by (simp add: ex_platform_def ex_ReadFile_def)
  have 2: "yaml_decode ex_platform '''' = Inr None"
    by (simp add: ex_platform_def ex_decode_def)
  from LoadFileFragment_nil_without_error [OF 1 2, of ScalarNode "[]"] 1 2
  show ?thesis by simp
qed

text \<open>
  Claim C10. For a file name without the character \<^verbatim>\<open>.\<close> the function
  \<^verbatim>\<open>fileNameWithoutExt\<close> returns the empty string. So the callback of
  \<^verbatim>\<open>LoadIncludeDirNamedTag\<close> appends, for a file with such a base name that loads,
  the pair of a string scalar with the empty value and the fragment of the file; and for a
  directory that holds just this file the tag node becomes the mapping with this one pair,
  whose key is the empty string and not the base name.
\<close>

theorem fileNameWithoutExt_no_dot:
  assumes "CHR ''.'' \<notin> set name"
  shows "fileNameWithoutExt os name = ''''
         \<and> (Base P path = name \<longrightarrow> path \<noteq> root \<longrightarrow>
              LoadFileFragment P path = (fragment, Ok) \<longrightarrow>
              include_dir_named_walk P root path (Some False) err content
                = (Ok, content @ [Some (Node ScalarNode ''!!str'' '''' []), fragment]))
         \<and> (Lstat P dir = Inr (Directory [(name, File)] rerr) \<longrightarrow>
              Base P (Join P dir name) = name \<longrightarrow> Join P dir name \<noteq> dir \<longrightarrow>
              LoadFileFragment P (Join P dir name) = (fragment, Ok) \<longrightarrow>
              LoadIncludeDirNamedTag P (Some (Node k ''!include_dir_named'' dir c))
                = (Ok, Some (Node MappingNode ''!!map'' ''''
                     [Some (Node ScalarNode ''!!str'' '''' []), fragment])))"
proof -
  have e: "fileNameWithoutExt os' name = ''''" for os'
    using assms by (simp add: fileNameWithoutExt_def fileNameWithoutExt_loop_no_dot)
  have cb: "include_dir_named_walk P root' path' (Some False) err' content'
              = (Ok, content' @ [Some (Node ScalarNode ''!!str'' '''' []), fragment])"
    if "Base P path' = name" "path' \<noteq> root'" "LoadFileFragment P path' = (fragment, Ok)"
    for root' path' err' content'
    using that by (simp add: include_dir_named_walk_def e)
  have dir: "LoadIncludeDirNamedTag P (Some (Node k ''!include_dir_named'' dir c))
               = (Ok, Some (Node MappingNode ''!!map'' ''''
                    [Some (Node ScalarNode ''!!str'' '''' []), fragment]))"
    if "Lstat P dir = Inr (Directory [(name, File)] rerr)"
      "Base P (Join P dir name) = name" "Join P dir name \<noteq> dir"
      "LoadFileFragment P (Join P dir name) = (fragment, Ok)"
    using that cb [of "Join P dir name" dir]
    by (cases rerr)
       (simp_all add: LoadIncludeDirNamedTag_def include_dir_named_processor_def WalkDir_def
          walk_dir_callback)
  from e cb dir show ?thesis by blast
qed

theorem fileNameWithoutExt_no_dot_witness:
  "CHR ''.'' \<notin> set ''Makefile''
   \<and> fileNameWithoutExt Unix ''Makefile'' = ''''
   \<and> include_dir_named_walk ex_platform ''mk'' ''mk/Makefile'' (Some False) None []
       = (Ok, [Some (Node ScalarNode ''!!str'' '''' []),
               Some (Node ScalarNode ''!!int'' ''4'' [])])
   \<and> LoadIncludeDirNamedTag ex_platform
        (Some (Node ScalarNode ''!include_dir_named'' ''mk'' []))
       = (Ok, Some (Node MappingNode ''!!map'' ''''
            [Some (Node ScalarNode ''!!str'' '''' []),
             Some (Node ScalarNode ''!!int'' ''4'' [])]))"
proof -
  have 1: "CHR ''.'' \<notin> set ''Makefile''" by simp
  have 2: "Base ex_platform ''mk/Makefile'' = ''Makefile''"
    by (simp add: ex_platform_def ex_Base_def)
  have 3: "Lstat ex_platform ''mk'' = Inr (Directory [(''Makefile'', File)] None)"
    by (simp add: ex_platform_def ex_Lstat_def)
  have 4: "''mk/Makefile'' \<noteq> ''mk''" by simp
  have 5: "LoadFileFragment ex_platform ''mk/Makefile''
             = (Some (Node ScalarNode ''!!int'' ''4'' []), Ok)"
    by (simp add: fs_defs)
  have 6: "Join ex_platform ''mk'' ''Makefile'' = ''mk/Makefile''"
    by (simp add: ex_platform_def ex_Join_def)
  from fileNameWithoutExt_no_dot
         [OF 1, of Unix ex_platform "''mk/Makefile''" "''mk''"
            "Some (Node ScalarNode ''!!int'' ''4'' [])" None "[]" "''mk''" None
            ScalarNode "[]"]
       1 2 3 4 5 6
  show ?thesis by simp
qed

end
